theory Spec2Isabelle
  imports Main
begin

section \<open>Strings and dictionaries of the source language\<close>

text \<open>
  Python strings are modelled as \<open>string\<close>; a character stands for an ASCII code point.
  \<open>str.lower\<close>, \<open>str.strip\<close> and \<open>str.isdigit\<close> are modelled on that range only:
  characters outside it are left unchanged by \<open>lower\<close> and are neither white space nor
  digits here.
\<close>

definition lower_char :: "char \<Rightarrow> char" where
  "lower_char c =
     (case map_of (zip ''ABCDEFGHIJKLMNOPQRSTUVWXYZ'' ''abcdefghijklmnopqrstuvwxyz'') c of
        None \<Rightarrow> c
      | Some l \<Rightarrow> l)"

definition lower :: "string \<Rightarrow> string" where
  "lower s = map lower_char s"

definition isspace :: "char \<Rightarrow> bool" where
  "isspace c = (c \<in> set [CHR 0x09, CHR 0x0A, CHR 0x0B, CHR 0x0C, CHR 0x0D,
                           CHR 0x1C, CHR 0x1D, CHR 0x1E, CHR 0x1F, CHR '' ''])"

definition strip :: "string \<Rightarrow> string" where
  "strip s = rev (dropWhile isspace (rev (dropWhile isspace s)))"

definition isdigit :: "string \<Rightarrow> bool" where
  "isdigit s = (s \<noteq> [] \<and> list_all (\<lambda>c. c \<in> set ''0123456789'') s)"

definition startswith :: "string \<Rightarrow> string \<Rightarrow> bool" where
  "startswith s pre = (take (length pre) s = pre)"

definition endswith :: "string \<Rightarrow> string \<Rightarrow> bool" where
  "endswith s suf = (length suf \<le> length s \<and> drop (length s - length suf) s = suf)"

text \<open>
  A Python \<open>dict\<close> keeps its keys in insertion order, and assigning to an existing key keeps
  the key's position. It is modelled as an association list: \<open>dict_set\<close> overwrites in
  place or appends, \<open>dict_get\<close> is \<open>d.get(k, default)\<close> (also the read of a
  \<open>defaultdict\<close>); \<open>d.items()\<close> is the list itself.
\<close>

type_synonym ('k, 'v) dict = "('k \<times> 'v) list"

fun dict_set :: "'k \<Rightarrow> 'v \<Rightarrow> ('k, 'v) dict \<Rightarrow> ('k, 'v) dict" where
  "dict_set k v [] = [(k, v)]"
| "dict_set k v ((k', v') # d) =
     (if k' = k then (k, v) # d else (k', v') # dict_set k v d)"

definition dict_get :: "('k, 'v) dict \<Rightarrow> 'k \<Rightarrow> 'v \<Rightarrow> 'v" where
  "dict_get d k dflt = (case map_of d k of None \<Rightarrow> dflt | Some v \<Rightarrow> v)"

definition dict_has :: "('k, 'v) dict \<Rightarrow> 'k \<Rightarrow> bool" where
  "dict_has d k = (map_of d k \<noteq> None)"

section \<open>LexicalChainAnalyzer\<close>

text \<open>
  The three tables of \<open>LexicalChainAnalyzer.__init__\<close>. An entry of \<open>term_details\<close> is
  the dictionary with the keys \<open>count\<close> and \<open>connected_terms\<close>.
\<close>

record term_detail =
  count :: int
  connected_terms :: "(string, int) dict"

record analyzer =
  lexical_chains :: "(string, string list) dict"
  term_frequencies :: "(string, int) dict"
  term_details :: "(string, term_detail) dict"

definition new_analyzer :: analyzer where
  "new_analyzer = \<lparr>lexical_chains = [], term_frequencies = [], term_details = []\<rparr>"

text \<open>
  One pass of the loop body of \<open>build_chains\<close> (source lines 41 to 53). The entry of
  \<open>term_details\<close> is created first when it is missing, so the read that follows always
  finds it; its default is never used.
\<close>

definition add_link :: "string \<Rightarrow> string \<Rightarrow> analyzer \<Rightarrow> analyzer" where
  "add_link current_term next_term a =
     (let chains = dict_set current_term
                     (dict_get (lexical_chains a) current_term [] @ [next_term])
                     (lexical_chains a);
          freqs = dict_set current_term
                    (dict_get (term_frequencies a) current_term 0 + 1)
                    (term_frequencies a);
          details0 = (if \<not> dict_has (term_details a) current_term
                      then dict_set current_term \<lparr>count = 0, connected_terms = []\<rparr>
                             (term_details a)
                      else term_details a);
          d = dict_get details0 current_term \<lparr>count = 0, connected_terms = []\<rparr>;
          d1 = d\<lparr>count := count d + 1\<rparr>;
          d2 = d1\<lparr>connected_terms :=
                   dict_set next_term (dict_get (connected_terms d1) next_term 0 + 1)
                     (connected_terms d1)\<rparr>
      in a\<lparr>lexical_chains := chains,
            term_frequencies := freqs,
            term_details := dict_set current_term d2 details0\<rparr>)"

text \<open>
  \<open>build_chains\<close>: \<open>process_text\<close> is the external normaliser (spaCy), taken as a
  parameter. The loop runs over \<open>range(len(all_terms) - 1)\<close>; for an empty list the range
  is \<open>range(-1)\<close>, which is empty, as is \<open>[0..<0 - 1]\<close>.
\<close>

definition build_chains ::
  "(string \<Rightarrow> string list) \<Rightarrow> string \<Rightarrow> string list \<Rightarrow> analyzer
     \<Rightarrow> string list \<times> analyzer" where
  "build_chains process_text query snippets a =
     (let query_terms = process_text query;
          snippet_terms = concat (map process_text snippets);
          all_terms = query_terms @ snippet_terms
      in (query_terms,
          fold (\<lambda>i. add_link (all_terms ! i) (all_terms ! (i + 1)))
            [0..<length all_terms - 1] a))"

text \<open>
  \<open>calculate_relevance\<close>. An entry of \<open>term_analysis\<close> is the dictionary with the keys
  \<open>term\<close>, \<open>score\<close> and \<open>connected_terms\<close>; a connected term is a pair of the related
  term and its count.
\<close>

record analysis_entry =
  entry_term :: string
  entry_score :: int
  entry_connected :: "(string \<times> int) list"

record relevance =
  score :: int
  term_analysis :: "analysis_entry list"

definition score_term ::
  "analyzer \<Rightarrow> string list \<Rightarrow> string \<Rightarrow> relevance \<Rightarrow> relevance" where
  "score_term a snippet_terms t acc =
     (if t \<in> set snippet_terms then
        (let term_score = dict_get (term_frequencies a) t 0;
             items = (case map_of (term_details a) t of
                        None \<Rightarrow> []
                      | Some d \<Rightarrow> connected_terms d);
             connected = filter (\<lambda>(related_term, c). related_term \<in> set snippet_terms) items
         in \<lparr>score = score acc + term_score + int (length connected),
              term_analysis = term_analysis acc @
                [\<lparr>entry_term = t, entry_score = term_score, entry_connected = connected\<rparr>]\<rparr>)
      else acc)"

definition calculate_relevance ::
  "(string \<Rightarrow> string list) \<Rightarrow> analyzer \<Rightarrow> string list \<Rightarrow> string \<Rightarrow> relevance" where
  "calculate_relevance process_text a query_terms snippet =
     (let snippet_terms = process_text snippet
      in fold (score_term a snippet_terms) query_terms \<lparr>score = 0, term_analysis = []\<rparr>)"

text \<open>
  Observations of a model: the number of links stored in \<open>lexical_chains\<close>, the
  sum of all occurrence counts, the sum of all successor counts, and for one term its
  occurrence count (in either table) and the sum of its successor counts.
\<close>

definition chain_links :: "analyzer \<Rightarrow> nat" where
  "chain_links a = sum_list (map (\<lambda>kv. length (snd kv)) (lexical_chains a))"

definition frequency_total :: "analyzer \<Rightarrow> int" where
  "frequency_total a = sum_list (map snd (term_frequencies a))"

definition successor_total :: "analyzer \<Rightarrow> int" where
  "successor_total a =
     sum_list (map (\<lambda>kv. sum_list (map snd (connected_terms (snd kv)))) (term_details a))"

definition occurrence_count :: "analyzer \<Rightarrow> string \<Rightarrow> int" where
  "occurrence_count a t = dict_get (term_frequencies a) t 0"

definition detail_count :: "analyzer \<Rightarrow> string \<Rightarrow> int" where
  "detail_count a t = (case map_of (term_details a) t of None \<Rightarrow> 0 | Some d \<Rightarrow> count d)"

definition successor_counts :: "analyzer \<Rightarrow> string \<Rightarrow> (string, int) dict" where
  "successor_counts a t =
     (case map_of (term_details a) t of None \<Rightarrow> [] | Some d \<Rightarrow> connected_terms d)"

section \<open>GoogleSearcher\<close>

text \<open>
  A journal descriptor is a dictionary with the optional string keys \<open>nama_jurnal\<close>,
  \<open>link\<close> and \<open>sinta_rank\<close>; \<open>None\<close> is an absent key. \<open>falsy\<close> is Python's
  \<open>not d.get(k)\<close> on such a key: absent or the empty string.
\<close>

record journal =
  nama_jurnal :: "string option"
  link :: "string option"
  sinta_rank :: "string option"

definition falsy :: "string option \<Rightarrow> bool" where
  "falsy v = (case v of None \<Rightarrow> True | Some s \<Rightarrow> s = [])"

text \<open>
  One entry of the provider's \<open>organic_results\<close>, read with \<open>result.get(key, '')\<close>, and
  the provider's answer to one query: a failure of the request (network error, error
  status, a body that is not JSON), or the decoded body with \<open>organic_results\<close> present or
  not. The provider is external and is a parameter, a function of the query string.
\<close>

record organic_result =
  result_link :: "string option"
  result_title :: "string option"
  result_snippet :: "string option"

datatype response = RequestFailed | Json "organic_result list option"

type_synonym provider = "string \<Rightarrow> response"

definition get_or_empty :: "string option \<Rightarrow> string" where
  "get_or_empty v = (case v of None \<Rightarrow> [] | Some s \<Rightarrow> s)"

record article =
  judul :: string
  article_link :: string
  snippet :: string
  jurnal :: string
  peringkat_sinta :: string
  website_jurnal :: string

datatype py_error = KeyError

definition is_pdf :: "string \<Rightarrow> bool" where
  "is_pdf url = endswith (lower url) ''.pdf''"

text \<open>
  \<open>search_google\<close>. The list \<open>sent\<close> logs the queries sent to the provider, so that a
  fetch is visible in the model. \<open>journal_info['link']\<close> is read before the \<open>try\<close>, so a
  missing link raises; \<open>journal_info['nama_jurnal']\<close> is read when an article is built and
  in the handler, which then raises again.
\<close>

definition search_google ::
  "provider \<Rightarrow> string \<Rightarrow> journal \<Rightarrow> string list
     \<Rightarrow> (py_error + article list) \<times> string list" where
  "search_google provider query journal_info sent =
     (case link journal_info of
        None \<Rightarrow> (Inl KeyError, sent)
      | Some site \<Rightarrow>
          (let search_query = query @ '' site:'' @ site @ '' filetype:pdf'';
               sent' = sent @ [search_query];
               handler = (case nama_jurnal journal_info of
                            None \<Rightarrow> Inl KeyError
                          | Some n \<Rightarrow> Inr [])
           in case provider search_query of
                RequestFailed \<Rightarrow> (handler, sent')
              | Json None \<Rightarrow> (Inr [], sent')
              | Json (Some organic_results) \<Rightarrow>
                  (let kept = filter (\<lambda>r. is_pdf (get_or_empty (result_link r)))
                                organic_results
                   in if kept = [] then (Inr [], sent')
                      else (case nama_jurnal journal_info of
                              None \<Rightarrow> (Inl KeyError, sent')
                            | Some n \<Rightarrow>
                                (Inr (map (\<lambda>r. \<lparr>judul = get_or_empty (result_title r),
                                                  article_link = get_or_empty (result_link r),
                                                  snippet = get_or_empty (result_snippet r),
                                                  jurnal = n,
                                                  peringkat_sinta =
                                                    get_or_empty (sinta_rank journal_info),
                                                  website_jurnal = site\<rparr>) kept),
                                 sent')))))"

section \<open>The search route\<close>

text \<open>
  An article after scoring carries \<open>relevance_score\<close> and \<open>lexical_analysis\<close>. An event
  is one \<open>yield\<close> of \<open>generate\<close>: \<open>Data s\<close> is the line \<open>data: s\<close>, \<open>DataJson\<close> the
  line whose payload is the serialised list of articles.
\<close>

record scored_article = article +
  relevance_score :: int
  lexical_analysis :: "analysis_entry list"

datatype event = Data string | DataJson "scored_article list"

text \<open>
  The form field \<open>sources_json\<close>: absent or empty (\<open>NoSources\<close>), a text that
  \<open>json.loads\<close> rejects or that is not a list (\<open>Malformed\<close>), or a list of journal
  descriptors.
\<close>

datatype sources_input = NoSources | Malformed | SourceList "journal list"

record request =
  topic :: string
  selected_rank :: "string option"
  sources_json :: sources_input

text \<open>
  The state of one run of \<open>generate\<close>: the events yielded so far, the queries sent, the
  lists \<open>all_results\<close> and \<open>snippets\<close>, and the exception that ended the run, if any.
\<close>

record session =
  events :: "event list"
  requests :: "string list"
  all_results :: "article list"
  snippets :: "string list"
  raised :: "py_error option"

definition new_session :: session where
  "new_session = \<lparr>events = [], requests = [], all_results = [], snippets = [],
                   raised = None\<rparr>"

definition progress :: "string \<Rightarrow> string \<Rightarrow> event" where
  "progress name rank = Data (''Mencari di '' @ name @ '' ('' @ rank @ '')...'')"

text \<open>Source lines 176, 177 and 204, 205: both lists are extended, nothing is filtered.\<close>

definition extend_results :: "article list \<Rightarrow> session \<Rightarrow> session" where
  "extend_results results s =
     s\<lparr>all_results := all_results s @ results,
       snippets := snippets s @ map snippet results\<rparr>"

text \<open>The three \<open>setdefault\<close> calls of explicit mode (source lines 171 to 173).\<close>

definition ensure_minimal_keys :: "journal \<Rightarrow> journal" where
  "ensure_minimal_keys j =
     (let j1 = (case nama_jurnal j of
                  None \<Rightarrow> j\<lparr>nama_jurnal :=
                              Some (case link j of None \<Rightarrow> ''Tidak ada nama'' | Some l \<Rightarrow> l)\<rparr>
                | Some n \<Rightarrow> j);
          j2 = (case link j1 of None \<Rightarrow> j1\<lparr>link := Some []\<rparr> | Some l \<Rightarrow> j1);
          j3 = (case sinta_rank j2 of
                  None \<Rightarrow> j2\<lparr>sinta_rank := Some ''SELECTED''\<rparr>
                | Some r \<Rightarrow> j2)
      in j3)"

text \<open>
  Emitting the progress line and fetching one source, shared by both modes: the line is
  yielded first, then the fetch runs; an exception ends the run.
\<close>

definition fetch_source ::
  "provider \<Rightarrow> string \<Rightarrow> journal \<Rightarrow> string \<Rightarrow> string \<Rightarrow> session \<Rightarrow> session" where
  "fetch_source provider tp j name rank s =
     (let s1 = s\<lparr>events := events s @ [progress name rank]\<rparr>
      in case search_google provider tp j (requests s1) of
           (Inl e, sent) \<Rightarrow> s1\<lparr>requests := sent, raised := Some e\<rparr>
         | (Inr results, sent) \<Rightarrow> extend_results results (s1\<lparr>requests := sent\<rparr>))"

text \<open>
  The loop of explicit mode (source lines 167 to 178). After the three \<open>setdefault\<close>
  calls the name and the rank are present, so the last case of the match is never taken
  (lemma \<open>explicit_loop_step\<close>). The pause of one second after each fetch has no
  counterpart here.
\<close>

fun explicit_loop :: "provider \<Rightarrow> string \<Rightarrow> journal list \<Rightarrow> session \<Rightarrow> session" where
  "explicit_loop provider tp [] s = s"
| "explicit_loop provider tp (j # js) s =
     (if falsy (nama_jurnal j) \<and> falsy (link j) then explicit_loop provider tp js s
      else
        (let j' = ensure_minimal_keys j
         in case (nama_jurnal j', sinta_rank j') of
              (Some name, Some rank) \<Rightarrow>
                (let s' = fetch_source provider tp j' name rank s
                 in case raised s' of
                      None \<Rightarrow> explicit_loop provider tp js s'
                    | Some e \<Rightarrow> s')
            | _ \<Rightarrow> s\<lparr>raised := Some KeyError\<rparr>))"

text \<open>\<open>group_matches\<close> (source lines 180 to 188).\<close>

definition group_matches :: "string option \<Rightarrow> string \<Rightarrow> bool" where
  "group_matches sel group_key =
     (case sel of
        None \<Rightarrow> startswith group_key ''SINTA_'' \<or> group_key = ''NON_SINTA''
      | Some raw \<Rightarrow>
          if raw = [] then startswith group_key ''SINTA_'' \<or> group_key = ''NON_SINTA''
          else
            (let sr = lower (strip raw)
             in if sr \<in> set [''non'', ''nonsinta'', ''non_sinta'', ''non-sinta'']
                then group_key = ''NON_SINTA''
                else if isdigit sr then group_key = ''SINTA_'' @ sr
                else False))"

text \<open>The two guards at the head of the loop over the groups (source lines 193 to 196).\<close>

definition group_selected :: "string option \<Rightarrow> string \<Rightarrow> bool" where
  "group_selected sel rank =
     ((startswith rank ''SINTA_'' \<or> rank = ''NON_SINTA'') \<and> group_matches sel rank)"

text \<open>
  The loops of catalog mode (source lines 191 to 206). The catalog is the dictionary read
  from the file: group keys in file order, each with its list of journals.
\<close>

type_synonym catalog = "(string, journal list) dict"

fun journal_loop :: "provider \<Rightarrow> string \<Rightarrow> string \<Rightarrow> journal list \<Rightarrow> session \<Rightarrow> session" where
  "journal_loop provider tp rank [] s = s"
| "journal_loop provider tp rank (j # js) s =
     (if falsy (nama_jurnal j) then journal_loop provider tp rank js s
      else
        (let j' = j\<lparr>sinta_rank := Some rank\<rparr>;
             s' = fetch_source provider tp j' (get_or_empty (nama_jurnal j')) rank s
         in case raised s' of
              None \<Rightarrow> journal_loop provider tp rank js s'
            | Some e \<Rightarrow> s'))"

fun rank_loop :: "provider \<Rightarrow> string \<Rightarrow> string option \<Rightarrow> catalog \<Rightarrow> session \<Rightarrow> session" where
  "rank_loop provider tp sel [] s = s"
| "rank_loop provider tp sel ((rank, journals) # rest) s =
     (if \<not> (startswith rank ''SINTA_'' \<or> rank = ''NON_SINTA'')
      then rank_loop provider tp sel rest s
      else if \<not> group_matches sel rank then rank_loop provider tp sel rest s
      else
        (let s' = journal_loop provider tp rank journals s
         in case raised s' of
              None \<Rightarrow> rank_loop provider tp sel rest s'
            | Some e \<Rightarrow> s'))"

text \<open>
  Scoring and the last event (source lines 209 to 222). \<open>sort_values\<close> stands for
  \<open>df.sort_values('relevance_score', ascending=False)\<close> followed by \<open>to_dict\<close>; pandas is
  external and the function is a parameter.
\<close>

definition attach :: "article \<Rightarrow> relevance \<Rightarrow> scored_article" where
  "attach r analysis =
     \<lparr>judul = judul r, article_link = article_link r, snippet = snippet r,
      jurnal = jurnal r, peringkat_sinta = peringkat_sinta r,
      website_jurnal = website_jurnal r,
      relevance_score = score analysis, lexical_analysis = term_analysis analysis\<rparr>"

definition score_results ::
  "(string \<Rightarrow> string list) \<Rightarrow> string \<Rightarrow> session \<Rightarrow> scored_article list" where
  "score_results process_text tp s =
     (case build_chains process_text tp (snippets s) new_analyzer of
        (query_terms, a) \<Rightarrow>
          map (\<lambda>r. attach r (calculate_relevance process_text a query_terms (snippet r)))
            (all_results s))"

definition finish ::
  "(string \<Rightarrow> string list) \<Rightarrow> (scored_article list \<Rightarrow> scored_article list)
     \<Rightarrow> string \<Rightarrow> session \<Rightarrow> session" where
  "finish process_text sort_values tp s =
     (case raised s of
        Some e \<Rightarrow> s
      | None \<Rightarrow>
          (let df = score_results process_text tp s
           in if length df > 0 then s\<lparr>events := events s @ [DataJson (sort_values df)]\<rparr>
              else s\<lparr>events := events s @ [Data ''DONE'']\<rparr>))"

text \<open>
  \<open>generate\<close>. \<open>journals_data\<close> is the catalog, \<open>None\<close> when neither file exists. The
  test for it comes first, before the form field \<open>sources_json\<close> is looked at.
\<close>

definition catalog_missing :: event where
  "catalog_missing = Data ''ERROR: Tidak ada file JSON daftar jurnal ditemukan.''"

definition sources_invalid :: event where
  "sources_invalid = Data ''ERROR: format sources_json tidak valid''"

definition retrieve :: "provider \<Rightarrow> catalog \<Rightarrow> request \<Rightarrow> event + session" where
  "retrieve provider journals req =
     (case sources_json req of
        Malformed \<Rightarrow> Inl sources_invalid
      | SourceList selected \<Rightarrow> Inr (explicit_loop provider (topic req) selected new_session)
      | NoSources \<Rightarrow>
          Inr (rank_loop provider (topic req) (selected_rank req) journals new_session))"

definition generate ::
  "(string \<Rightarrow> string list) \<Rightarrow> provider \<Rightarrow> (scored_article list \<Rightarrow> scored_article list)
     \<Rightarrow> catalog option \<Rightarrow> request \<Rightarrow> session" where
  "generate process_text provider sort_values journals_data req =
     (case journals_data of
        None \<Rightarrow> new_session\<lparr>events := [catalog_missing]\<rparr>
      | Some journals \<Rightarrow>
          (case retrieve provider journals req of
             Inl err \<Rightarrow> new_session\<lparr>events := [err]\<rparr>
           | Inr s \<Rightarrow> finish process_text sort_values (topic req) s))"

section \<open>Observations of a run and example data\<close>

text \<open>
  A progress event is a line that starts with \<open>Mencari di\<close>. \<open>pool_matches\<close> says that
  the snippet pool is the list of the snippets of the result set.
\<close>

definition is_progress :: "event \<Rightarrow> bool" where
  "is_progress e = (case e of Data l \<Rightarrow> startswith l ''Mencari di '' | DataJson b \<Rightarrow> False)"

definition pool_matches :: "session \<Rightarrow> bool" where
  "pool_matches s = (snippets s = map snippet (all_results s))"

text \<open>
  Data for concrete runs: a normaliser given by a table, a provider that answers every
  query with three results (a PDF, a PDF with an upper-case suffix and an empty snippet, a
  page that is not a PDF), one journal, and a catalog with a note and two groups.
\<close>

definition example_process_text :: "string \<Rightarrow> string list" where
  "example_process_text text =
     (case map_of [(''irigasi'', [''irigasi'']),
                   (''sistem irigasi otomatis'', [''sistem'', ''irigasi'', ''otomatis'']),
                   (''manajemen air'', [''manajemen'', ''air''])] text of
        None \<Rightarrow> []
      | Some terms \<Rightarrow> terms)"

definition example_provider :: provider where
  "example_provider q =
     Json (Some [\<lparr>result_link = Some ''a.org/1.pdf'', result_title = Some ''Satu'',
                   result_snippet = Some ''sistem irigasi otomatis''\<rparr>,
                 \<lparr>result_link = Some ''a.org/2.PDF'', result_title = Some ''Dua'',
                   result_snippet = Some []\<rparr>,
                 \<lparr>result_link = Some ''a.org/3.html'', result_title = Some ''Tiga'',
                   result_snippet = Some ''manajemen air''\<rparr>])"

definition example_journal :: journal where
  "example_journal = \<lparr>nama_jurnal = Some ''Jurnal A'', link = Some ''a.org'', sinta_rank = None\<rparr>"

definition example_catalog :: catalog where
  "example_catalog = [(''catatan'', []), (''SINTA_1'', [example_journal]), (''NON_SINTA'', [])]"

section \<open>Properties of the chain model and the scorer\<close>


lemma map_of_dict_set: "map_of (dict_set k v d) = (map_of d)(k \<mapsto> v)"
  by (induction d) (auto simp: fun_eq_iff)

lemma dict_get_dict_set:
  "dict_get (dict_set k v d) k' dflt = (if k' = k then v else dict_get d k' dflt)"
  by (simp add: dict_get_def map_of_dict_set)

lemma sum_dict_set_nat:
  fixes g :: "'v \<Rightarrow> nat"
  assumes "g dflt = 0"
  shows "sum_list (map (\<lambda>kv. g (snd kv)) (dict_set k v d)) + g (dict_get d k dflt)
         = sum_list (map (\<lambda>kv. g (snd kv)) d) + g v"
  using assms by (induction d) (auto simp: dict_get_def)

lemma sum_dict_set_int:
  fixes g :: "'v \<Rightarrow> int"
  assumes "g dflt = 0"
  shows "sum_list (map (\<lambda>kv. g (snd kv)) (dict_set k v d)) + g (dict_get d k dflt)
         = sum_list (map (\<lambda>kv. g (snd kv)) d) + g v"
  using assms by (induction d) (auto simp: dict_get_def)

lemma index_pairs:
  "map (\<lambda>i. (xs ! i, xs ! (i + 1))) [0..<length xs - 1] = zip xs (tl xs)"
  by (rule nth_equalityI) (auto simp: nth_tl)

lemma fold_index_pairs:
  "fold (\<lambda>i. f (xs ! i) (xs ! (i + 1))) [0..<length xs - 1] a
   = fold (\<lambda>p. f (fst p) (snd p)) (zip xs (tl xs)) a"
proof -
  have "fold (\<lambda>p. f (fst p) (snd p)) (map (\<lambda>i. (xs ! i, xs ! (i + 1))) [0..<length xs - 1]) a
        = fold (\<lambda>i. f (xs ! i) (xs ! (i + 1))) [0..<length xs - 1] a"
    by (simp add: fold_map comp_def)
  then show ?thesis by (simp only: index_pairs)
qed

lemma chain_links_add_link: "chain_links (add_link c n a) = chain_links a + 1"
proof -
  have "sum_list (map (\<lambda>kv. length (snd kv))
          (dict_set c (dict_get (lexical_chains a) c [] @ [n]) (lexical_chains a)))
        + length (dict_get (lexical_chains a) c [])
        = sum_list (map (\<lambda>kv. length (snd kv)) (lexical_chains a))
        + length (dict_get (lexical_chains a) c [] @ [n])"
    by (rule sum_dict_set_nat) simp
  then show ?thesis by (simp add: chain_links_def add_link_def Let_def)
qed

lemma frequency_total_add_link: "frequency_total (add_link c n a) = frequency_total a + 1"
proof -
  have "sum_list (map (\<lambda>kv. snd kv)
          (dict_set c (dict_get (term_frequencies a) c 0 + 1) (term_frequencies a)))
        + dict_get (term_frequencies a) c 0
        = sum_list (map (\<lambda>kv. snd kv) (term_frequencies a))
        + (dict_get (term_frequencies a) c 0 + 1)"
    by (rule sum_dict_set_int[where g = "\<lambda>v. v"]) simp
  then show ?thesis by (simp add: frequency_total_def add_link_def Let_def)
qed


lemma details0_sum:
  fixes g :: "term_detail \<Rightarrow> int"
  assumes "g \<lparr>count = 0, connected_terms = []\<rparr> = 0"
  shows "sum_list (map (\<lambda>kv. g (snd kv))
           (if \<not> dict_has d c then dict_set c \<lparr>count = 0, connected_terms = []\<rparr> d else d))
         = sum_list (map (\<lambda>kv. g (snd kv)) d)"
proof (cases "dict_has d c")
  case True
  then show ?thesis by simp
next
  case False
  have "sum_list (map (\<lambda>kv. g (snd kv)) (dict_set c \<lparr>count = 0, connected_terms = []\<rparr> d))
        + g (dict_get d c \<lparr>count = 0, connected_terms = []\<rparr>)
        = sum_list (map (\<lambda>kv. g (snd kv)) d) + g \<lparr>count = 0, connected_terms = []\<rparr>"
    by (rule sum_dict_set_int) (rule assms)
  moreover from False have "dict_get d c \<lparr>count = 0, connected_terms = []\<rparr>
      = \<lparr>count = 0, connected_terms = []\<rparr>"
    by (simp add: dict_has_def dict_get_def)
  ultimately show ?thesis using False by simp
qed

lemma details0_get:
  "dict_get (if \<not> dict_has d c then dict_set c \<lparr>count = 0, connected_terms = []\<rparr> d else d)
     k \<lparr>count = 0, connected_terms = []\<rparr>
   = dict_get d k \<lparr>count = 0, connected_terms = []\<rparr>"
  by (auto simp: dict_has_def dict_get_def map_of_dict_set)

lemma connected_bump:
  "sum_list (map snd (dict_set n (dict_get ct n 0 + 1) ct)) = sum_list (map snd ct) + (1::int)"
proof -
  have "sum_list (map (\<lambda>kv. snd kv) (dict_set n (dict_get ct n 0 + 1) ct)) + dict_get ct n 0
        = sum_list (map (\<lambda>kv. snd kv) ct) + (dict_get ct n 0 + (1::int))"
    by (rule sum_dict_set_int[where g = "\<lambda>v. v"]) simp
  then show ?thesis by simp
qed

lemma connected_bump_None:
  "map_of ct n = None \<Longrightarrow> sum_list (map snd (dict_set n 1 ct)) = sum_list (map snd ct) + (1::int)"
  using connected_bump[of n ct] by (simp add: dict_get_def)

lemma connected_bump_Some:
  "map_of ct n = Some v \<Longrightarrow>
   sum_list (map snd (dict_set n (v + 1) ct)) = sum_list (map snd ct) + (1::int)"
  using connected_bump[of n ct] by (simp add: dict_get_def)

lemma successor_total_add_link: "successor_total (add_link c n a) = successor_total a + 1"
proof -
  let ?e = "\<lparr>count = 0, connected_terms = []\<rparr>"
  let ?g = "\<lambda>d. sum_list (map snd (connected_terms d))"
  let ?ds = "if \<not> dict_has (term_details a) c then dict_set c ?e (term_details a)
             else term_details a"
  let ?old = "dict_get ?ds c ?e"
  let ?new = "?old\<lparr>count := count ?old + 1,
                connected_terms := dict_set n (dict_get (connected_terms ?old) n 0 + 1)
                                     (connected_terms ?old)\<rparr>"
  have "sum_list (map (\<lambda>kv. ?g (snd kv)) (dict_set c ?new ?ds)) + ?g (dict_get ?ds c ?e)
        = sum_list (map (\<lambda>kv. ?g (snd kv)) ?ds) + ?g ?new"
    by (rule sum_dict_set_int) simp
  moreover have "?g ?new = ?g ?old + 1"
    by (simp add: connected_bump)
  moreover have "sum_list (map (\<lambda>kv. ?g (snd kv)) ?ds)
                 = sum_list (map (\<lambda>kv. ?g (snd kv)) (term_details a))"
    by (rule details0_sum) simp
  ultimately have "sum_list (map (\<lambda>kv. ?g (snd kv)) (dict_set c ?new ?ds))
                   = sum_list (map (\<lambda>kv. ?g (snd kv)) (term_details a)) + 1"
    by linarith
  then show ?thesis
    by (simp add: successor_total_def add_link_def Let_def)
qed

lemma occurrence_count_add_link:
  "occurrence_count (add_link c n a) t = occurrence_count a t + (if t = c then 1 else 0)"
  by (simp add: occurrence_count_def add_link_def Let_def dict_get_dict_set)

lemma detail_count_add_link:
  "detail_count (add_link c n a) t = detail_count a t + (if t = c then 1 else 0)"
  by (auto simp: detail_count_def add_link_def Let_def map_of_dict_set dict_get_def dict_has_def
           split: option.splits)

lemma successor_counts_add_link:
  "sum_list (map snd (successor_counts (add_link c n a) t))
   = sum_list (map snd (successor_counts a t)) + (if t = c then 1 else 0)"
  by (auto simp: successor_counts_def add_link_def Let_def map_of_dict_set dict_get_def
                 dict_has_def connected_bump_None connected_bump_Some
           split: option.splits)


lemma chain_links_fold:
  "chain_links (fold (\<lambda>p. add_link (fst p) (snd p)) ps a) = chain_links a + length ps"
  by (induction ps arbitrary: a) (simp_all add: chain_links_add_link)

lemma frequency_total_fold:
  "frequency_total (fold (\<lambda>p. add_link (fst p) (snd p)) ps a)
   = frequency_total a + int (length ps)"
  by (induction ps arbitrary: a) (simp_all add: frequency_total_add_link)

lemma successor_total_fold:
  "successor_total (fold (\<lambda>p. add_link (fst p) (snd p)) ps a)
   = successor_total a + int (length ps)"
  by (induction ps arbitrary: a) (simp_all add: successor_total_add_link)

lemma occurrence_count_fold:
  "occurrence_count (fold (\<lambda>p. add_link (fst p) (snd p)) ps a) t
   = occurrence_count a t + int (length (filter (\<lambda>p. fst p = t) ps))"
  by (induction ps arbitrary: a) (simp_all add: occurrence_count_add_link)

lemma detail_count_fold:
  "detail_count (fold (\<lambda>p. add_link (fst p) (snd p)) ps a) t
   = detail_count a t + int (length (filter (\<lambda>p. fst p = t) ps))"
  by (induction ps arbitrary: a) (simp_all add: detail_count_add_link)

lemma successor_counts_fold:
  "sum_list (map snd (successor_counts (fold (\<lambda>p. add_link (fst p) (snd p)) ps a) t))
   = sum_list (map snd (successor_counts a t)) + int (length (filter (\<lambda>p. fst p = t) ps))"
  by (induction ps arbitrary: a) (simp_all add: successor_counts_add_link)

lemma followed_positions:
  "length (filter (\<lambda>p. fst p = t) (zip xs (tl xs)))
   = length (filter (\<lambda>i. xs ! i = t) [0..<length xs - 1])"
proof -
  have "filter (\<lambda>p. fst p = t) (map (\<lambda>i. (xs ! i, xs ! (i + 1))) [0..<length xs - 1])
        = map (\<lambda>i. (xs ! i, xs ! (i + 1))) (filter (\<lambda>i. xs ! i = t) [0..<length xs - 1])"
    by (simp add: filter_map comp_def)
  then have "length (filter (\<lambda>p. fst p = t)
               (map (\<lambda>i. (xs ! i, xs ! (i + 1))) [0..<length xs - 1]))
             = length (filter (\<lambda>i. xs ! i = t) [0..<length xs - 1])"
    by simp
  then show ?thesis by (simp only: index_pairs)
qed

lemma snd_build_chains:
  "snd (build_chains process_text query snips a)
   = fold (\<lambda>p. add_link (fst p) (snd p))
       (zip (process_text query @ concat (map process_text snips))
            (tl (process_text query @ concat (map process_text snips)))) a"
  unfolding build_chains_def Let_def by (simp only: snd_conv fold_index_pairs)

lemma new_analyzer_observed:
  "chain_links new_analyzer = 0" "frequency_total new_analyzer = 0"
  "successor_total new_analyzer = 0" "occurrence_count new_analyzer t = 0"
  "detail_count new_analyzer t = 0" "successor_counts new_analyzer t = []"
  by (simp_all add: new_analyzer_def chain_links_def frequency_total_def successor_total_def
        occurrence_count_def detail_count_def successor_counts_def dict_get_def)

text \<open>
  Claim C4. For the term sequence of length \<open>n\<close> that \<open>build_chains\<close> forms from the query
  and the snippets, a fresh model records exactly \<open>n - 1\<close> successor links, and none when
  \<open>n \<le> 1\<close>: in the lists of \<open>lexical_chains\<close>, in the sum of \<open>term_frequencies\<close> and in
  the sum of all \<open>connected_terms\<close> counts.
\<close>

theorem build_chains_link_count:
  "chain_links (snd (build_chains process_text query snips new_analyzer))
     = (if length (process_text query @ concat (map process_text snips)) \<le> 1 then 0
        else length (process_text query @ concat (map process_text snips)) - 1)
   \<and> frequency_total (snd (build_chains process_text query snips new_analyzer))
     = (if length (process_text query @ concat (map process_text snips)) \<le> 1 then 0
        else int (length (process_text query @ concat (map process_text snips))) - 1)
   \<and> successor_total (snd (build_chains process_text query snips new_analyzer))
     = (if length (process_text query @ concat (map process_text snips)) \<le> 1 then 0
        else int (length (process_text query @ concat (map process_text snips))) - 1)"
  by (simp add: snd_build_chains chain_links_fold frequency_total_fold successor_total_fold
        new_analyzer_observed)

theorem build_chains_link_count_witness:
  "chain_links (snd (build_chains example_process_text ''irigasi''
                       [''sistem irigasi otomatis'', ''manajemen air''] new_analyzer)) = 5
   \<and> successor_total (snd (build_chains example_process_text ''irigasi''
                       [''sistem irigasi otomatis'', ''manajemen air''] new_analyzer)) = 5
   \<and> chain_links (snd (build_chains example_process_text ''irigasi'' [] new_analyzer)) = 0
   \<and> chain_links (snd (build_chains example_process_text [] [] new_analyzer)) = 0"
proof -
  have n: "length (example_process_text ''irigasi''
             @ concat (map example_process_text
                         [''sistem irigasi otomatis'', ''manajemen air''])) = 6"
    "length (example_process_text ''irigasi'' @ concat (map example_process_text [])) = 1"
    "length (example_process_text [] @ concat (map example_process_text [])) = 0"
    by code_simp+
  show ?thesis
    using build_chains_link_count[of example_process_text "''irigasi''"
            "[''sistem irigasi otomatis'', ''manajemen air'']"]
          build_chains_link_count[of example_process_text "''irigasi''" "[]"]
          build_chains_link_count[of example_process_text "[]" "[]"]
    by (simp only: n) simp
qed

text \<open>
  Claim C5. After \<open>build_chains\<close> on a fresh model, the occurrence count of a term \<open>t\<close>
  is the number of positions of the term sequence, the last one excluded, that hold \<open>t\<close>
  (the positions where \<open>t\<close> is followed by another term); the count kept in
  \<open>term_details\<close> is the same number, and so is the sum of the successor counts of \<open>t\<close>.
\<close>

theorem build_chains_occurrence_count:
  "occurrence_count (snd (build_chains process_text query snips new_analyzer)) t
     = int (length (filter
         (\<lambda>i. (process_text query @ concat (map process_text snips)) ! i = t)
         [0..<length (process_text query @ concat (map process_text snips)) - 1]))
   \<and> detail_count (snd (build_chains process_text query snips new_analyzer)) t
     = occurrence_count (snd (build_chains process_text query snips new_analyzer)) t
   \<and> sum_list (map snd
        (successor_counts (snd (build_chains process_text query snips new_analyzer)) t))
     = occurrence_count (snd (build_chains process_text query snips new_analyzer)) t"
  by (simp only: snd_build_chains occurrence_count_fold detail_count_fold
        successor_counts_fold new_analyzer_observed followed_positions) simp

theorem build_chains_occurrence_count_witness:
  "occurrence_count (snd (build_chains example_process_text ''irigasi''
                            [''sistem irigasi otomatis'', ''manajemen air''] new_analyzer))
     ''irigasi'' = 2
   \<and> detail_count (snd (build_chains example_process_text ''irigasi''
                            [''sistem irigasi otomatis'', ''manajemen air''] new_analyzer))
     ''irigasi'' = 2
   \<and> sum_list (map snd (successor_counts
        (snd (build_chains example_process_text ''irigasi''
                [''sistem irigasi otomatis'', ''manajemen air''] new_analyzer)) ''irigasi'')) = 2
   \<and> occurrence_count (snd (build_chains example_process_text ''irigasi''
                            [''sistem irigasi otomatis'', ''manajemen air''] new_analyzer))
     ''air'' = 0"
proof -
  have n: "length (filter
         (\<lambda>i. (example_process_text ''irigasi''
                 @ concat (map example_process_text
                             [''sistem irigasi otomatis'', ''manajemen air''])) ! i = ''irigasi'')
         [0..<length (example_process_text ''irigasi''
                 @ concat (map example_process_text
                             [''sistem irigasi otomatis'', ''manajemen air''])) - 1]) = 2"
    "length (filter
         (\<lambda>i. (example_process_text ''irigasi''
                 @ concat (map example_process_text
                             [''sistem irigasi otomatis'', ''manajemen air''])) ! i = ''air'')
         [0..<length (example_process_text ''irigasi''
                 @ concat (map example_process_text
                             [''sistem irigasi otomatis'', ''manajemen air''])) - 1]) = 0"
    by code_simp+
  show ?thesis
    using build_chains_occurrence_count[of example_process_text "''irigasi''"
            "[''sistem irigasi otomatis'', ''manajemen air'']" "''irigasi''"]
          build_chains_occurrence_count[of example_process_text "''irigasi''"
            "[''sistem irigasi otomatis'', ''manajemen air'']" "''air''"]
    by (simp only: n) simp
qed

lemma fold_score_term_twice:
  "fold (score_term a st) [t, t] \<lparr>score = 0, term_analysis = []\<rparr>
   = \<lparr>score = 2 * score (fold (score_term a st) [t] \<lparr>score = 0, term_analysis = []\<rparr>),
      term_analysis = term_analysis (fold (score_term a st) [t] \<lparr>score = 0, term_analysis = []\<rparr>)
                    @ term_analysis (fold (score_term a st) [t] \<lparr>score = 0, term_analysis = []\<rparr>)\<rparr>"
  by (simp add: score_term_def Let_def)

text \<open>
  Claim C6. The scorer does not remove duplicates from the query terms: for every model and
  snippet, the query \<open>[t, t]\<close> gets twice the score of the query \<open>[t]\<close> and twice as many
  entries in the term analysis (the entries of \<open>[t]\<close>, repeated).
\<close>

theorem duplicate_query_term_scored_twice:
  "score (calculate_relevance process_text a [t, t] snip)
     = 2 * score (calculate_relevance process_text a [t] snip)
   \<and> length (term_analysis (calculate_relevance process_text a [t, t] snip))
     = 2 * length (term_analysis (calculate_relevance process_text a [t] snip))
   \<and> term_analysis (calculate_relevance process_text a [t, t] snip)
     = term_analysis (calculate_relevance process_text a [t] snip)
       @ term_analysis (calculate_relevance process_text a [t] snip)"
  unfolding calculate_relevance_def Let_def
  by (simp only: fold_score_term_twice) simp

theorem duplicate_query_term_scored_twice_witness:
  "score (calculate_relevance example_process_text
            (snd (build_chains example_process_text ''irigasi''
                    [''sistem irigasi otomatis'', ''manajemen air''] new_analyzer))
            [''irigasi'', ''irigasi''] ''sistem irigasi otomatis'') = 8
   \<and> length (term_analysis (calculate_relevance example_process_text
            (snd (build_chains example_process_text ''irigasi''
                    [''sistem irigasi otomatis'', ''manajemen air''] new_analyzer))
            [''irigasi'', ''irigasi''] ''sistem irigasi otomatis'')) = 2"
proof -
  have one: "score (calculate_relevance example_process_text
            (snd (build_chains example_process_text ''irigasi''
                    [''sistem irigasi otomatis'', ''manajemen air''] new_analyzer))
            [''irigasi''] ''sistem irigasi otomatis'') = 4"
    "length (term_analysis (calculate_relevance example_process_text
            (snd (build_chains example_process_text ''irigasi''
                    [''sistem irigasi otomatis'', ''manajemen air''] new_analyzer))
            [''irigasi''] ''sistem irigasi otomatis'')) = 1"
    by code_simp+
  show ?thesis
    using duplicate_query_term_scored_twice[of example_process_text
            "snd (build_chains example_process_text ''irigasi''
                    [''sistem irigasi otomatis'', ''manajemen air''] new_analyzer)"
            "''irigasi''" "''sistem irigasi otomatis''"] one
    by simp
qed

section \<open>Properties of the searcher and the search route\<close>


lemma search_google_sent:
  "snd (search_google provider q j sent)
   = (case link j of None \<Rightarrow> sent | Some site \<Rightarrow> sent @ [q @ '' site:'' @ site @ '' filetype:pdf''])"
  by (simp add: search_google_def Let_def split: option.splits response.splits)

lemma search_google_pdf:
  "fst (search_google provider q j sent) = Inr arts \<Longrightarrow>
   list_all (\<lambda>a. is_pdf (article_link a)) arts"
  by (auto simp: search_google_def Let_def list_all_iff
           split: option.splits response.splits if_splits)

lemma search_google_returns:
  "link j = Some site \<Longrightarrow> nama_jurnal j = Some n \<Longrightarrow>
   \<exists>arts. fst (search_google provider q j sent) = Inr arts"
  by (simp add: search_google_def Let_def split: option.splits response.splits)

lemma fetch_source_events:
  "events (fetch_source provider tp j name rank s) = events s @ [progress name rank]"
  by (simp add: fetch_source_def Let_def extend_results_def split: prod.splits sum.splits)

lemma fetch_source_requests:
  "requests (fetch_source provider tp j name rank s)
   = snd (search_google provider tp j (requests s))"
  by (simp add: fetch_source_def Let_def extend_results_def split: prod.splits sum.splits)

lemma fetch_source_results:
  "fst (search_google provider tp j (requests s)) = Inr results \<Longrightarrow>
   all_results (fetch_source provider tp j name rank s) = all_results s @ results
   \<and> snippets (fetch_source provider tp j name rank s) = snippets s @ map snippet results
   \<and> raised (fetch_source provider tp j name rank s) = raised s"
  by (cases "search_google provider tp j (requests s)")
     (simp add: fetch_source_def Let_def extend_results_def)

lemma fetch_source_raises:
  "fst (search_google provider tp j (requests s)) = Inl e \<Longrightarrow>
   all_results (fetch_source provider tp j name rank s) = all_results s
   \<and> snippets (fetch_source provider tp j name rank s) = snippets s
   \<and> raised (fetch_source provider tp j name rank s) = Some e"
  by (cases "search_google provider tp j (requests s)")
     (simp add: fetch_source_def Let_def)

lemma fetch_source_pool:
  "pool_matches s \<Longrightarrow> pool_matches (fetch_source provider tp j name rank s)"
  by (cases "fst (search_google provider tp j (requests s))")
     (simp_all add: pool_matches_def fetch_source_raises fetch_source_results)

lemma fetch_source_pdf:
  "list_all (\<lambda>a. is_pdf (article_link a)) (all_results s) \<Longrightarrow>
   list_all (\<lambda>a. is_pdf (article_link a)) (all_results (fetch_source provider tp j name rank s))"
  by (cases "fst (search_google provider tp j (requests s))")
     (simp_all add: fetch_source_raises fetch_source_results search_google_pdf)

lemma ensure_minimal_keys_fields:
  "nama_jurnal (ensure_minimal_keys j)
     = Some (case nama_jurnal j of
               Some n \<Rightarrow> n
             | None \<Rightarrow> (case link j of None \<Rightarrow> ''Tidak ada nama'' | Some l \<Rightarrow> l))"
  "link (ensure_minimal_keys j) = Some (get_or_empty (link j))"
  "sinta_rank (ensure_minimal_keys j)
     = Some (case sinta_rank j of None \<Rightarrow> ''SELECTED'' | Some r \<Rightarrow> r)"
  by (simp_all add: ensure_minimal_keys_def Let_def get_or_empty_def split: option.splits)

lemma explicit_loop_step:
  "explicit_loop provider tp (j # js) s =
     (if falsy (nama_jurnal j) \<and> falsy (link j) then explicit_loop provider tp js s
      else
        (let s' = fetch_source provider tp (ensure_minimal_keys j)
                    (get_or_empty (nama_jurnal (ensure_minimal_keys j)))
                    (get_or_empty (sinta_rank (ensure_minimal_keys j))) s
         in case raised s' of
              None \<Rightarrow> explicit_loop provider tp js s'
            | Some e \<Rightarrow> s'))"
  by (simp add: Let_def ensure_minimal_keys_fields get_or_empty_def)

lemma explicit_loop_pool:
  "pool_matches s \<Longrightarrow> pool_matches (explicit_loop provider tp js s)"
proof (induction js arbitrary: s)
  case Nil
  then show ?case by simp
next
  case (Cons j js)
  show ?case
    unfolding explicit_loop_step Let_def
    by (auto simp: Cons fetch_source_pool split: option.splits)
qed

lemma journal_loop_pool:
  "pool_matches s \<Longrightarrow> pool_matches (journal_loop provider tp rank js s)"
  by (induction js arbitrary: s) (auto simp: Let_def fetch_source_pool split: option.splits)

lemma rank_loop_pool:
  "pool_matches s \<Longrightarrow> pool_matches (rank_loop provider tp sel cat s)"
  by (induction cat arbitrary: s) (auto simp: Let_def journal_loop_pool split: option.splits)

lemma explicit_loop_pdf:
  "list_all (\<lambda>a. is_pdf (article_link a)) (all_results s) \<Longrightarrow>
   list_all (\<lambda>a. is_pdf (article_link a)) (all_results (explicit_loop provider tp js s))"
proof (induction js arbitrary: s)
  case Nil
  then show ?case by simp
next
  case (Cons j js)
  show ?case
    unfolding explicit_loop_step Let_def
    by (auto simp: Cons fetch_source_pdf split: option.splits)
qed

lemma journal_loop_pdf:
  "list_all (\<lambda>a. is_pdf (article_link a)) (all_results s) \<Longrightarrow>
   list_all (\<lambda>a. is_pdf (article_link a)) (all_results (journal_loop provider tp rank js s))"
  by (induction js arbitrary: s) (auto simp: Let_def fetch_source_pdf split: option.splits)

lemma rank_loop_pdf:
  "list_all (\<lambda>a. is_pdf (article_link a)) (all_results s) \<Longrightarrow>
   list_all (\<lambda>a. is_pdf (article_link a)) (all_results (rank_loop provider tp sel cat s))"
  by (induction cat arbitrary: s) (auto simp: Let_def journal_loop_pdf split: option.splits)


lemma is_progress_progress: "is_progress (progress name rank)"
  by (simp add: is_progress_def progress_def startswith_def)

lemma not_progress:
  "\<not> is_progress catalog_missing" "\<not> is_progress sources_invalid"
  "\<not> is_progress (Data ''DONE'')" "\<not> is_progress (DataJson b)"
  by (simp_all add: is_progress_def catalog_missing_def sources_invalid_def startswith_def)

lemma fetch_source_progress:
  "list_all is_progress (events s) \<Longrightarrow>
   list_all is_progress (events (fetch_source provider tp j name rank s))"
  by (simp add: fetch_source_events is_progress_progress)

lemma explicit_loop_progress:
  "list_all is_progress (events s) \<Longrightarrow>
   list_all is_progress (events (explicit_loop provider tp js s))"
proof (induction js arbitrary: s)
  case Nil
  then show ?case by simp
next
  case (Cons j js)
  show ?case
    unfolding explicit_loop_step Let_def
    by (auto simp: Cons fetch_source_progress split: option.splits)
qed

lemma journal_loop_progress:
  "list_all is_progress (events s) \<Longrightarrow>
   list_all is_progress (events (journal_loop provider tp rank js s))"
  by (induction js arbitrary: s) (auto simp: Let_def fetch_source_progress split: option.splits)

lemma rank_loop_progress:
  "list_all is_progress (events s) \<Longrightarrow>
   list_all is_progress (events (rank_loop provider tp sel cat s))"
  by (induction cat arbitrary: s) (auto simp: Let_def journal_loop_progress split: option.splits)

lemma fetch_source_explicit:
  "raised (fetch_source provider tp (ensure_minimal_keys j) name rank s) = raised s
   \<and> requests (fetch_source provider tp (ensure_minimal_keys j) name rank s)
     = requests s @ [tp @ '' site:'' @ get_or_empty (link j) @ '' filetype:pdf'']"
proof -
  obtain arts where
    "fst (search_google provider tp (ensure_minimal_keys j) (requests s)) = Inr arts"
    using search_google_returns[OF ensure_minimal_keys_fields(2) ensure_minimal_keys_fields(1)]
    by blast
  then show ?thesis
    by (simp add: fetch_source_results fetch_source_requests search_google_sent
          ensure_minimal_keys_fields)
qed

lemma explicit_loop_trace:
  "raised s = None \<Longrightarrow>
   raised (explicit_loop provider tp js s) = None
   \<and> events (explicit_loop provider tp js s)
     = events s @ map (\<lambda>j. progress (get_or_empty (nama_jurnal (ensure_minimal_keys j)))
                                    (get_or_empty (sinta_rank (ensure_minimal_keys j))))
                    (filter (\<lambda>j. \<not> (falsy (nama_jurnal j) \<and> falsy (link j))) js)
   \<and> requests (explicit_loop provider tp js s)
     = requests s @ map (\<lambda>j. tp @ '' site:'' @ get_or_empty (link j) @ '' filetype:pdf'')
                      (filter (\<lambda>j. \<not> (falsy (nama_jurnal j) \<and> falsy (link j))) js)"
proof (induction js arbitrary: s)
  case Nil
  then show ?case by simp
next
  case (Cons j js)
  show ?case
  proof (cases "falsy (nama_jurnal j) \<and> falsy (link j)")
    case True
    then show ?thesis
      unfolding explicit_loop_step using Cons.IH[OF Cons.prems] by simp
  next
    case False
    let ?s' = "fetch_source provider tp (ensure_minimal_keys j)
                 (get_or_empty (nama_jurnal (ensure_minimal_keys j)))
                 (get_or_empty (sinta_rank (ensure_minimal_keys j))) s"
    have r: "raised ?s' = None"
      using Cons.prems by (simp add: fetch_source_explicit)
    have step: "explicit_loop provider tp (j # js) s = explicit_loop provider tp js ?s'"
      unfolding explicit_loop_step Let_def using False r by auto
    show ?thesis
      unfolding step using Cons.IH[OF r] False
      by (simp add: fetch_source_events fetch_source_explicit)
  qed
qed


lemma search_google_fst_sent:
  "fst (search_google provider q j sent) = fst (search_google provider q j [])"
  by (simp add: search_google_def Let_def split: option.splits response.splits)

lemma explicit_loop_results:
  "raised s = None \<Longrightarrow>
   all_results (explicit_loop provider tp js s)
     = all_results s @ concat (map (\<lambda>j. case fst (search_google provider tp
                                                     (ensure_minimal_keys j) []) of
                                          Inl e \<Rightarrow> []
                                        | Inr results \<Rightarrow> results)
                                (filter (\<lambda>j. \<not> (falsy (nama_jurnal j) \<and> falsy (link j))) js))"
proof (induction js arbitrary: s)
  case Nil
  then show ?case by simp
next
  case (Cons j js)
  show ?case
  proof (cases "falsy (nama_jurnal j) \<and> falsy (link j)")
    case True
    then show ?thesis
      unfolding explicit_loop_step using Cons.IH[OF Cons.prems] by simp
  next
    case False
    let ?s' = "fetch_source provider tp (ensure_minimal_keys j)
                 (get_or_empty (nama_jurnal (ensure_minimal_keys j)))
                 (get_or_empty (sinta_rank (ensure_minimal_keys j))) s"
    obtain arts where
      arts: "fst (search_google provider tp (ensure_minimal_keys j) (requests s)) = Inr arts"
      using search_google_returns[OF ensure_minimal_keys_fields(2) ensure_minimal_keys_fields(1)]
      by blast
    then have arts0: "fst (search_google provider tp (ensure_minimal_keys j) []) = Inr arts"
      using search_google_fst_sent[of provider tp "ensure_minimal_keys j" "requests s"]
      by simp
    have r: "raised ?s' = None"
      using Cons.prems by (simp add: fetch_source_explicit)
    have step: "explicit_loop provider tp (j # js) s = explicit_loop provider tp js ?s'"
      unfolding explicit_loop_step Let_def using False r by auto
    show ?thesis
      unfolding step using Cons.IH[OF r] False arts0
      by (simp add: fetch_source_results[OF arts])
  qed
qed

lemma retrieve_invariants:
  assumes "retrieve provider journals req = Inr s"
  shows "pool_matches s" "list_all is_progress (events s)"
        "list_all (\<lambda>a. is_pdf (article_link a)) (all_results s)"
proof -
  have init: "pool_matches new_session" "list_all is_progress (events new_session)"
    "list_all (\<lambda>a. is_pdf (article_link a)) (all_results new_session)"
    by (simp_all add: new_session_def pool_matches_def)
  from assms show "pool_matches s"
    by (auto simp: retrieve_def explicit_loop_pool rank_loop_pool init
             split: sources_input.splits)
  from assms show "list_all is_progress (events s)"
    by (auto simp: retrieve_def explicit_loop_progress rank_loop_progress init
             split: sources_input.splits)
  from assms show "list_all (\<lambda>a. is_pdf (article_link a)) (all_results s)"
    by (auto simp: retrieve_def explicit_loop_pdf rank_loop_pdf init
             split: sources_input.splits)
qed

lemma finish_events:
  "events (finish process_text sort_values tp s)
   = (case raised s of
        Some e \<Rightarrow> events s
      | None \<Rightarrow>
          if all_results s = [] then events s @ [Data ''DONE'']
          else events s @ [DataJson (sort_values (score_results process_text tp s))])"
  by (simp add: finish_def Let_def score_results_def split: option.splits prod.splits)

lemma finish_fields:
  "all_results (finish process_text sort_values tp s) = all_results s"
  "snippets (finish process_text sort_values tp s) = snippets s"
  "requests (finish process_text sort_values tp s) = requests s"
  by (simp_all add: finish_def Let_def split: option.splits)

lemma score_results_links:
  "map article_link (score_results process_text tp s) = map article_link (all_results s)"
  by (simp add: score_results_def attach_def split: prod.splits)

text \<open>
  Claim C1, as amended. A missing catalog ends every request, in explicit mode as in catalog
  mode: the only event is the missing-catalog error, no query is sent and nothing is
  retrieved. When a catalog loads, that error is never emitted.
\<close>

theorem missing_catalog_is_fatal_in_both_modes:
  "generate process_text provider sort_values None req
     = new_session\<lparr>events := [catalog_missing]\<rparr>
   \<and> requests (generate process_text provider sort_values None req) = []
   \<and> all_results (generate process_text provider sort_values None req) = []
   \<and> catalog_missing \<notin> set (events (generate process_text provider sort_values
                                        (Some journals) req))"
proof -
  have "catalog_missing \<notin> set (events (generate process_text provider sort_values
                                          (Some journals) req))"
  proof (cases "retrieve provider journals req")
    case (Inl err)
    then have "err = sources_invalid"
      by (auto simp: retrieve_def split: sources_input.splits)
    with Inl show ?thesis
      by (simp add: generate_def new_session_def catalog_missing_def sources_invalid_def)
  next
    case (Inr s)
    have "list_all is_progress (events s)"
      by (rule retrieve_invariants(2)[OF Inr])
    then have "catalog_missing \<notin> set (events s)"
      using not_progress(1) by (auto simp: list_all_iff)
    with Inr show ?thesis
      by (auto simp: generate_def finish_events catalog_missing_def split: option.splits)
  qed
  then show ?thesis
    by (simp add: generate_def new_session_def)
qed

text \<open>
  Claim C1 as stated fails: with an explicit source list and no catalog, the run emits the
  missing-catalog error and sends no query.
\<close>

theorem explicit_sources_without_catalog_counterexample:
  "events (generate example_process_text example_provider (\<lambda>xs. xs) None
             \<lparr>topic = ''irigasi'', selected_rank = None,
              sources_json = SourceList [example_journal]\<rparr>) = [catalog_missing]
   \<and> requests (generate example_process_text example_provider (\<lambda>xs. xs) None
             \<lparr>topic = ''irigasi'', selected_rank = None,
              sources_json = SourceList [example_journal]\<rparr>) = []
   \<and> requests (generate example_process_text example_provider (\<lambda>xs. xs)
             (Some example_catalog)
             \<lparr>topic = ''irigasi'', selected_rank = None,
              sources_json = SourceList [example_journal]\<rparr>)
       = [''irigasi site:a.org filetype:pdf'']"
  by code_simp

text \<open>
  Claim C3, as amended. Every record a fetch returns is appended to the result set, and
  the snippet of every returned record, empty or not, is appended to the snippet pool. In
  explicit mode the result set is the records returned for the entries that are not passed
  over, in order; in both modes, when retrieval ends, the pool is the list of the snippets
  of the result set, one for one.
\<close>

theorem results_and_snippets_appended:
  "(fst (search_google provider tp j (requests s)) = Inr results \<longrightarrow>
      all_results (fetch_source provider tp j name rank s) = all_results s @ results
      \<and> snippets (fetch_source provider tp j name rank s)
          = snippets s @ map snippet results)
   \<and> (raised s = None \<longrightarrow>
        all_results (explicit_loop provider tp js s)
          = all_results s
            @ concat (map (\<lambda>j. case fst (search_google provider tp
                                              (ensure_minimal_keys j) []) of
                                   Inl e \<Rightarrow> []
                                 | Inr returned \<Rightarrow> returned)
                        (filter (\<lambda>j. \<not> (falsy (nama_jurnal j) \<and> falsy (link j))) js)))
   \<and> (retrieve provider journals req = Inr s' \<longrightarrow>
        snippets s' = map snippet (all_results s'))"
  using retrieve_invariants(1)[of provider journals req s']
    explicit_loop_results[of s provider tp js]
  by (simp add: fetch_source_results pool_matches_def)

theorem results_and_snippets_appended_witness:
  "fst (search_google example_provider ''irigasi''
          (example_journal\<lparr>sinta_rank := Some ''SINTA_1''\<rparr>) (requests new_session))
     = Inr [\<lparr>judul = ''Satu'', article_link = ''a.org/1.pdf'',
             snippet = ''sistem irigasi otomatis'', jurnal = ''Jurnal A'',
             peringkat_sinta = ''SINTA_1'', website_jurnal = ''a.org''\<rparr>,
            \<lparr>judul = ''Dua'', article_link = ''a.org/2.PDF'', snippet = [],
             jurnal = ''Jurnal A'', peringkat_sinta = ''SINTA_1'',
             website_jurnal = ''a.org''\<rparr>]
   \<and> snippets (fetch_source example_provider ''irigasi''
                 (example_journal\<lparr>sinta_rank := Some ''SINTA_1''\<rparr>) ''Jurnal A'' ''SINTA_1''
                 new_session)
       = [''sistem irigasi otomatis'', []]
   \<and> raised new_session = None
   \<and> map article_link
        (all_results (explicit_loop example_provider ''irigasi''
                        [example_journal, example_journal] new_session))
       = [''a.org/1.pdf'', ''a.org/2.PDF'', ''a.org/1.pdf'', ''a.org/2.PDF'']
   \<and> retrieve example_provider example_catalog
         \<lparr>topic = ''irigasi'', selected_rank = None, sources_json = NoSources\<rparr>
       = Inr (rank_loop example_provider ''irigasi'' None example_catalog new_session)
   \<and> snippets (rank_loop example_provider ''irigasi'' None example_catalog new_session)
       = map snippet
           (all_results (rank_loop example_provider ''irigasi'' None example_catalog
                           new_session))"
proof -
  have a: "fst (search_google example_provider ''irigasi''
          (example_journal\<lparr>sinta_rank := Some ''SINTA_1''\<rparr>) (requests new_session))
     = Inr [\<lparr>judul = ''Satu'', article_link = ''a.org/1.pdf'',
             snippet = ''sistem irigasi otomatis'', jurnal = ''Jurnal A'',
             peringkat_sinta = ''SINTA_1'', website_jurnal = ''a.org''\<rparr>,
            \<lparr>judul = ''Dua'', article_link = ''a.org/2.PDF'', snippet = [],
             jurnal = ''Jurnal A'', peringkat_sinta = ''SINTA_1'',
             website_jurnal = ''a.org''\<rparr>]"
    by code_simp
  have b: "retrieve example_provider example_catalog
         \<lparr>topic = ''irigasi'', selected_rank = None, sources_json = NoSources\<rparr>
       = Inr (rank_loop example_provider ''irigasi'' None example_catalog new_session)"
    by (simp add: retrieve_def)
  have c: "snippets new_session = []" "all_results new_session = []"
    "raised new_session = None"
    by (simp_all add: new_session_def)
  have d: "map article_link
        (concat (map (\<lambda>j. case fst (search_google example_provider ''irigasi''
                                     (ensure_minimal_keys j) []) of
                            Inl e \<Rightarrow> []
                          | Inr returned \<Rightarrow> returned)
                 (filter (\<lambda>j. \<not> (falsy (nama_jurnal j) \<and> falsy (link j)))
                    [example_journal, example_journal])))
     = [''a.org/1.pdf'', ''a.org/2.PDF'', ''a.org/1.pdf'', ''a.org/2.PDF'']"
    by code_simp
  show ?thesis
    using a b c d results_and_snippets_appended
      [where provider = example_provider and tp = "''irigasi''"
         and j = "example_journal\<lparr>sinta_rank := Some ''SINTA_1''\<rparr>"
         and s = new_session
         and results = "[\<lparr>judul = ''Satu'', article_link = ''a.org/1.pdf'',
             snippet = ''sistem irigasi otomatis'', jurnal = ''Jurnal A'',
             peringkat_sinta = ''SINTA_1'', website_jurnal = ''a.org''\<rparr>,
            \<lparr>judul = ''Dua'', article_link = ''a.org/2.PDF'', snippet = [],
             jurnal = ''Jurnal A'', peringkat_sinta = ''SINTA_1'',
             website_jurnal = ''a.org''\<rparr>]"
         and name = "''Jurnal A''" and rank = "''SINTA_1''"
         and js = "[example_journal, example_journal]"
         and journals = example_catalog
         and req = "\<lparr>topic = ''irigasi'', selected_rank = None, sources_json = NoSources\<rparr>"
         and s' = "rank_loop example_provider ''irigasi'' None example_catalog new_session"]
    by simp
qed

text \<open>
  Claim C3 as stated fails: a returned record with an empty snippet puts the empty string
  into the snippet pool.
\<close>

theorem empty_snippet_pooled_counterexample:
  "snippets (explicit_loop example_provider ''irigasi'' [example_journal] new_session)
     = [''sistem irigasi otomatis'', []]
   \<and> map snippet (all_results (explicit_loop example_provider ''irigasi'' [example_journal]
                                  new_session))
     = [''sistem irigasi otomatis'', []]"
  by code_simp


lemma strip_lower_empty: "lower (strip []) = []"
  by (simp add: lower_def strip_def)

lemma sentinel_not_digit:
  "\<not> isdigit ''non''" "\<not> isdigit ''nonsinta''" "\<not> isdigit ''non_sinta''"
  "\<not> isdigit ''non-sinta''" "\<not> isdigit []"
  by (simp_all add: isdigit_def)

lemma startswith_append: "startswith (pre @ s) pre"
  by (simp add: startswith_def)

text \<open>
  Claim C7. In catalog mode a group key is selected exactly when no rank filter is given
  (absent or empty) and the key is a recognised group (it starts with \<open>SINTA_\<close> or is
  \<open>NON_SINTA\<close>), or the filter, stripped and lower-cased, is one of the non-ranked
  sentinels and the key is \<open>NON_SINTA\<close>, or the filter, stripped and lower-cased, is a
  string of digits \<open>n\<close> and the key is \<open>SINTA_n\<close>. The loop over the groups fetches the
  journals of the selected groups and passes over every other group.
\<close>

theorem group_selection:
  "group_selected sel key =
     ((falsy sel \<and> (startswith key ''SINTA_'' \<or> key = ''NON_SINTA''))
      \<or> (\<exists>raw. sel = Some raw
             \<and> lower (strip raw) \<in> set [''non'', ''nonsinta'', ''non_sinta'', ''non-sinta'']
             \<and> key = ''NON_SINTA'')
      \<or> (\<exists>raw. sel = Some raw \<and> isdigit (lower (strip raw))
             \<and> key = ''SINTA_'' @ lower (strip raw)))
   \<and> rank_loop provider tp sel ((key, journals) # rest) s =
       (if group_selected sel key then
          (let s' = journal_loop provider tp key journals s
           in case raised s' of
                None \<Rightarrow> rank_loop provider tp sel rest s'
              | Some e \<Rightarrow> s')
        else rank_loop provider tp sel rest s)"
proof -
  have sel: "group_selected sel key =
     ((falsy sel \<and> (startswith key ''SINTA_'' \<or> key = ''NON_SINTA''))
      \<or> (\<exists>raw. sel = Some raw
             \<and> lower (strip raw) \<in> set [''non'', ''nonsinta'', ''non_sinta'', ''non-sinta'']
             \<and> key = ''NON_SINTA'')
      \<or> (\<exists>raw. sel = Some raw \<and> isdigit (lower (strip raw))
             \<and> key = ''SINTA_'' @ lower (strip raw)))"
  proof (cases sel)
    case None
    then show ?thesis
      by (simp add: group_selected_def group_matches_def falsy_def)
  next
    case (Some raw)
    show ?thesis
    proof (cases "raw = []")
      case True
      with Some show ?thesis
        by (simp add: group_selected_def group_matches_def falsy_def strip_lower_empty
              sentinel_not_digit)
    next
      case False
      with Some show ?thesis
        using sentinel_not_digit startswith_append[of "''SINTA_''" "lower (strip raw)"]
        by (auto simp: group_selected_def group_matches_def falsy_def Let_def)
    qed
  qed
  have "rank_loop provider tp sel ((key, journals) # rest) s =
       (if group_selected sel key then
          (let s' = journal_loop provider tp key journals s
           in case raised s' of
                None \<Rightarrow> rank_loop provider tp sel rest s'
              | Some e \<Rightarrow> s')
        else rank_loop provider tp sel rest s)"
    by (simp add: group_selected_def)
  with sel show ?thesis by (rule conjI)
qed

theorem group_selection_witness:
  "group_selected (Some ''3'') ''SINTA_3''
   \<and> \<not> group_selected (Some ''3'') ''SINTA_2''
   \<and> \<not> group_selected (Some ''3'') ''NON_SINTA''
   \<and> group_selected (Some ''non'') ''NON_SINTA''
   \<and> group_selected (Some ''Non-Sinta'') ''NON_SINTA''
   \<and> group_selected (Some '' NON_SINTA '') ''NON_SINTA''
   \<and> \<not> group_selected (Some ''non'') ''SINTA_1''
   \<and> group_selected None ''SINTA_6''
   \<and> group_selected None ''NON_SINTA''
   \<and> \<not> group_selected None ''catatan''"
proof -
  have lows: "lower (strip ''3'') = ''3''" "lower (strip ''non'') = ''non''"
    "lower (strip ''Non-Sinta'') = ''non-sinta''"
    "lower (strip '' NON_SINTA '') = ''non_sinta''"
    by code_simp+
  have digs: "isdigit ''3''" "\<not> isdigit ''non''"
    by (simp_all add: isdigit_def)
  have pre: "startswith ''SINTA_6'' ''SINTA_''" "\<not> startswith ''catatan'' ''SINTA_''"
    by (simp_all add: startswith_def)
  show ?thesis
    using group_selection[of "Some ''3''" "''SINTA_3''"]
          group_selection[of "Some ''3''" "''SINTA_2''"]
          group_selection[of "Some ''3''" "''NON_SINTA''"]
          group_selection[of "Some ''non''" "''NON_SINTA''"]
          group_selection[of "Some ''Non-Sinta''" "''NON_SINTA''"]
          group_selection[of "Some '' NON_SINTA ''" "''NON_SINTA''"]
          group_selection[of "Some ''non''" "''SINTA_1''"]
          group_selection[of None "''SINTA_6''"]
          group_selection[of None "''NON_SINTA''"]
          group_selection[of None "''catatan''"]
    by (simp add: lows digs pre falsy_def)
qed

text \<open>
  Claim C8, as amended. In explicit mode an entry with neither a name nor a URL (each
  absent or empty) is passed over: no progress event, no fetch. The defaults act on absent
  keys: an entry whose name key is absent and that has a URL gets the URL as its name, and
  an entry whose rank key is absent gets \<open>SELECTED\<close>; a name or a rank that is
  present, even empty, is kept as it is. Over the whole list, the progress events and the
  queries sent are those of the entries that are not passed over, in order, with the name
  and rank so determined.
\<close>

theorem explicit_source_normalisation:
  "(falsy (nama_jurnal j) \<and> falsy (link j) \<longrightarrow>
      explicit_loop provider tp (j # js) s = explicit_loop provider tp js s)
   \<and> (nama_jurnal j = None \<and> link j = Some u \<longrightarrow>
        nama_jurnal (ensure_minimal_keys j) = Some u)
   \<and> (sinta_rank j = None \<longrightarrow> sinta_rank (ensure_minimal_keys j) = Some ''SELECTED'')
   \<and> (nama_jurnal j = Some n \<longrightarrow> nama_jurnal (ensure_minimal_keys j) = Some n)
   \<and> (sinta_rank j = Some r \<longrightarrow> sinta_rank (ensure_minimal_keys j) = Some r)
   \<and> (raised s = None \<longrightarrow>
        events (explicit_loop provider tp js s)
          = events s @ map (\<lambda>j. progress (get_or_empty (nama_jurnal (ensure_minimal_keys j)))
                                         (get_or_empty (sinta_rank (ensure_minimal_keys j))))
                         (filter (\<lambda>j. \<not> (falsy (nama_jurnal j) \<and> falsy (link j))) js)
        \<and> requests (explicit_loop provider tp js s)
          = requests s @ map (\<lambda>j. tp @ '' site:'' @ get_or_empty (link j) @ '' filetype:pdf'')
                           (filter (\<lambda>j. \<not> (falsy (nama_jurnal j) \<and> falsy (link j))) js))"
  using explicit_loop_trace[of s provider tp js]
  by (simp add: ensure_minimal_keys_fields)

theorem explicit_source_normalisation_witness:
  "explicit_loop example_provider ''irigasi''
     (\<lparr>nama_jurnal = None, link = Some [], sinta_rank = Some ''SINTA_2''\<rparr> # [example_journal])
     new_session
   = explicit_loop example_provider ''irigasi'' [example_journal] new_session
   \<and> nama_jurnal (ensure_minimal_keys
        \<lparr>nama_jurnal = None, link = Some ''b.org'', sinta_rank = None\<rparr>) = Some ''b.org''
   \<and> sinta_rank (ensure_minimal_keys
        \<lparr>nama_jurnal = None, link = Some ''b.org'', sinta_rank = None\<rparr>) = Some ''SELECTED''
   \<and> nama_jurnal (ensure_minimal_keys
        \<lparr>nama_jurnal = Some ''Jurnal B'', link = Some ''b.org'', sinta_rank = Some ''SINTA_2''\<rparr>)
       = Some ''Jurnal B''
   \<and> sinta_rank (ensure_minimal_keys
        \<lparr>nama_jurnal = Some ''Jurnal B'', link = Some ''b.org'', sinta_rank = Some ''SINTA_2''\<rparr>)
       = Some ''SINTA_2''
   \<and> raised new_session = None
   \<and> events (explicit_loop example_provider ''irigasi''
        [\<lparr>nama_jurnal = None, link = None, sinta_rank = None\<rparr>,
         \<lparr>nama_jurnal = None, link = Some ''b.org'', sinta_rank = None\<rparr>,
         example_journal] new_session)
     = [Data ''Mencari di b.org (SELECTED)...'', Data ''Mencari di Jurnal A (SELECTED)...'']
   \<and> requests (explicit_loop example_provider ''irigasi''
        [\<lparr>nama_jurnal = None, link = None, sinta_rank = None\<rparr>,
         \<lparr>nama_jurnal = None, link = Some ''b.org'', sinta_rank = None\<rparr>,
         example_journal] new_session)
     = [''irigasi site:b.org filetype:pdf'', ''irigasi site:a.org filetype:pdf'']"
  using explicit_source_normalisation
          [where j = "\<lparr>nama_jurnal = None, link = Some [], sinta_rank = Some ''SINTA_2''\<rparr>"
             and provider = example_provider and tp = "''irigasi''"
             and js = "[example_journal]" and s = new_session
             and u = "[]" and n = "[]" and r = "''SINTA_2''"]
        explicit_source_normalisation
          [where j = "\<lparr>nama_jurnal = None, link = Some ''b.org'', sinta_rank = None\<rparr>"
             and provider = example_provider and tp = "''irigasi''"
             and js = "[\<lparr>nama_jurnal = None, link = None, sinta_rank = None\<rparr>,
                        \<lparr>nama_jurnal = None, link = Some ''b.org'', sinta_rank = None\<rparr>,
                        example_journal]"
             and s = new_session and u = "''b.org''" and n = "[]" and r = "[]"]
        explicit_source_normalisation
          [where j = "\<lparr>nama_jurnal = Some ''Jurnal B'', link = Some ''b.org'',
                        sinta_rank = Some ''SINTA_2''\<rparr>"
             and provider = example_provider and tp = "''irigasi''"
             and js = "[]" and s = new_session
             and u = "''b.org''" and n = "''Jurnal B''" and r = "''SINTA_2''"]
  by (simp add: falsy_def new_session_def example_journal_def progress_def get_or_empty_def
        ensure_minimal_keys_def)

text \<open>
  Claim C8 as stated fails when "no name" and "no rank label" include the empty string, as
  "neither a name nor a URL" does in the same sentence: an entry with a URL, an empty name
  and an empty rank is not passed over, its name is not replaced by its URL and its rank is
  not replaced by \<open>SELECTED\<close>; it is announced and fetched with both left empty.
\<close>

theorem empty_name_not_defaulted_counterexample:
  "falsy (nama_jurnal \<lparr>nama_jurnal = Some [], link = Some ''b.org'', sinta_rank = Some []\<rparr>)
   \<and> falsy (sinta_rank \<lparr>nama_jurnal = Some [], link = Some ''b.org'', sinta_rank = Some []\<rparr>)
   \<and> nama_jurnal (ensure_minimal_keys
        \<lparr>nama_jurnal = Some [], link = Some ''b.org'', sinta_rank = Some []\<rparr>) = Some []
   \<and> nama_jurnal (ensure_minimal_keys
        \<lparr>nama_jurnal = Some [], link = Some ''b.org'', sinta_rank = Some []\<rparr>)
       \<noteq> Some ''b.org''
   \<and> sinta_rank (ensure_minimal_keys
        \<lparr>nama_jurnal = Some [], link = Some ''b.org'', sinta_rank = Some []\<rparr>) = Some []
   \<and> sinta_rank (ensure_minimal_keys
        \<lparr>nama_jurnal = Some [], link = Some ''b.org'', sinta_rank = Some []\<rparr>)
       \<noteq> Some ''SELECTED''
   \<and> events (explicit_loop example_provider ''irigasi''
        [\<lparr>nama_jurnal = Some [], link = Some ''b.org'', sinta_rank = Some []\<rparr>] new_session)
     = [Data ''Mencari di  ()...'']
   \<and> requests (explicit_loop example_provider ''irigasi''
        [\<lparr>nama_jurnal = Some [], link = Some ''b.org'', sinta_rank = Some []\<rparr>] new_session)
     = [''irigasi site:b.org filetype:pdf'']
   \<and> map jurnal (all_results (explicit_loop example_provider ''irigasi''
        [\<lparr>nama_jurnal = Some [], link = Some ''b.org'', sinta_rank = Some []\<rparr>] new_session))
     = [[], []]"
  by code_simp

text \<open>
  Claim C9. When retrieval has run through all sources and the result set is empty, the
  run ends with the event \<open>DONE\<close>. Every event before it is a progress event, so no
  batch and no error event is emitted, and \<open>DONE\<close> is neither of the error events, nor a
  batch, nor a progress event.
\<close>

theorem empty_result_set_emits_done:
  assumes "retrieve provider journals req = Inr s"
    and "raised s = None"
    and "all_results s = []"
  shows "events (generate process_text provider sort_values (Some journals) req)
           = events s @ [Data ''DONE'']
         \<and> list_all is_progress (events s)
         \<and> \<not> is_progress (Data ''DONE'')
         \<and> Data ''DONE'' \<noteq> catalog_missing
         \<and> Data ''DONE'' \<noteq> sources_invalid
         \<and> Data ''DONE'' \<noteq> DataJson batch"
  using assms retrieve_invariants(2)[OF assms(1)]
  by (simp add: generate_def finish_events not_progress catalog_missing_def
        sources_invalid_def)

theorem empty_result_set_emits_done_witness:
  "retrieve (\<lambda>q. Json None) example_catalog
     \<lparr>topic = ''irigasi'', selected_rank = None, sources_json = NoSources\<rparr>
     = Inr \<lparr>events = [Data ''Mencari di Jurnal A (SINTA_1)...''],
            requests = [''irigasi site:a.org filetype:pdf''],
            all_results = [], snippets = [], raised = None\<rparr>
   \<and> events (generate example_process_text (\<lambda>q. Json None) (\<lambda>xs. xs) (Some example_catalog)
               \<lparr>topic = ''irigasi'', selected_rank = None, sources_json = NoSources\<rparr>)
     = [Data ''Mencari di Jurnal A (SINTA_1)...'', Data ''DONE'']"
proof -
  have r: "retrieve (\<lambda>q. Json None) example_catalog
     \<lparr>topic = ''irigasi'', selected_rank = None, sources_json = NoSources\<rparr>
     = Inr \<lparr>events = [Data ''Mencari di Jurnal A (SINTA_1)...''],
            requests = [''irigasi site:a.org filetype:pdf''],
            all_results = [], snippets = [], raised = None\<rparr>"
    by code_simp
  show ?thesis
    using r empty_result_set_emits_done[OF r, of example_process_text "\<lambda>xs. xs"]
    by simp
qed

lemma search_google_kept:
  assumes "link j = Some site" and "nama_jurnal j = Some n"
    and "provider (q @ '' site:'' @ site @ '' filetype:pdf'') = Json (Some organic)"
  shows "fst (search_google provider q j sent)
         = Inr (map (\<lambda>r. \<lparr>judul = get_or_empty (result_title r),
                           article_link = get_or_empty (result_link r),
                           snippet = get_or_empty (result_snippet r),
                           jurnal = n,
                           peringkat_sinta = get_or_empty (sinta_rank j),
                           website_jurnal = site\<rparr>)
                  (filter (\<lambda>r. is_pdf (get_or_empty (result_link r))) organic))"
  using assms by (simp add: search_google_def Let_def)

text \<open>
  Claim C10. Every record that \<open>search_google\<close> returns has a link whose lower-cased form
  ends with \<open>.pdf\<close>; the provider's results with any other link are left out. So every
  record of the result set has such a link, the snippet pool holds the snippets of those
  records only, and so does every batch that is emitted, as long as sorting returns no
  record that it was not given.
\<close>

theorem only_pdf_links:
  assumes "\<And>xs. set (sort_values xs) \<subseteq> set xs"
  shows "(fst (search_google provider q j sent) = Inr arts \<longrightarrow>
            list_all (\<lambda>a. is_pdf (article_link a)) arts)
         \<and> (link j = Some site \<and> nama_jurnal j = Some n
              \<and> provider (q @ '' site:'' @ site @ '' filetype:pdf'') = Json (Some organic) \<longrightarrow>
              (\<exists>arts'. fst (search_google provider q j sent) = Inr arts'
                 \<and> map article_link arts'
                     = filter is_pdf (map (\<lambda>r. get_or_empty (result_link r)) organic)))
         \<and> list_all (\<lambda>a. is_pdf (article_link a))
              (all_results (generate process_text provider sort_values journals_data req))
         \<and> snippets (generate process_text provider sort_values journals_data req)
             = map snippet
                 (all_results (generate process_text provider sort_values journals_data req))
         \<and> (\<forall>batch. DataJson batch
                \<in> set (events (generate process_text provider sort_values journals_data req))
              \<longrightarrow> list_all (\<lambda>a. is_pdf (article_link a)) batch)"
proof -
  let ?g = "generate process_text provider sort_values journals_data req"
  have one: "fst (search_google provider q j sent) = Inr arts \<longrightarrow>
            list_all (\<lambda>a. is_pdf (article_link a)) arts"
    by (simp add: search_google_pdf)
  have two: "link j = Some site \<and> nama_jurnal j = Some n
              \<and> provider (q @ '' site:'' @ site @ '' filetype:pdf'') = Json (Some organic) \<longrightarrow>
              (\<exists>arts'. fst (search_google provider q j sent) = Inr arts'
                 \<and> map article_link arts'
                     = filter is_pdf (map (\<lambda>r. get_or_empty (result_link r)) organic))"
    by (auto simp: search_google_kept filter_map comp_def)
  have rest: "list_all (\<lambda>a. is_pdf (article_link a)) (all_results ?g)
      \<and> snippets ?g = map snippet (all_results ?g)
      \<and> (\<forall>batch. DataJson batch \<in> set (events ?g)
            \<longrightarrow> list_all (\<lambda>a. is_pdf (article_link a)) batch)"
  proof (cases journals_data)
    case None
    then show ?thesis
      by (simp add: generate_def new_session_def catalog_missing_def)
  next
    case (Some journals)
    show ?thesis
    proof (cases "retrieve provider journals req")
      case (Inl err)
      then have "err = sources_invalid"
        by (auto simp: retrieve_def split: sources_input.splits)
      with Inl Some show ?thesis
        by (simp add: generate_def new_session_def sources_invalid_def)
    next
      case (Inr s)
      have g: "?g = finish process_text sort_values (topic req) s"
        using Some Inr by (simp add: generate_def)
      have pdf: "list_all (\<lambda>a. is_pdf (article_link a)) (all_results s)"
        by (rule retrieve_invariants(3)[OF Inr])
      have pool: "snippets s = map snippet (all_results s)"
        using retrieve_invariants(1)[OF Inr] by (simp add: pool_matches_def)
      have prog: "list_all is_progress (events s)"
        by (rule retrieve_invariants(2)[OF Inr])
      have scored: "list_all (\<lambda>a. is_pdf (article_link a))
                      (score_results process_text (topic req) s)"
      proof -
        have "list_all is_pdf (map article_link (all_results s))"
          using pdf by (simp add: list_all_iff)
        then have "list_all is_pdf
                     (map article_link (score_results process_text (topic req) s))"
          by (simp only: score_results_links)
        then show ?thesis by (simp add: list_all_iff)
      qed
      have batch: "list_all (\<lambda>a. is_pdf (article_link a)) b"
        if "DataJson b \<in> set (events ?g)" for b
      proof -
        have "DataJson b \<notin> set (events s)"
          using prog not_progress(4)[of b] by (auto simp: list_all_iff)
        with that have "b = sort_values (score_results process_text (topic req) s)"
          unfolding g finish_events by (auto split: option.splits if_splits)
        then show ?thesis
          using scored assms[of "score_results process_text (topic req) s"]
          by (auto simp: list_all_iff)
      qed
      show ?thesis
        using pdf pool batch by (simp add: g finish_fields)
    qed
  qed
  from one two rest show ?thesis by blast
qed

theorem only_pdf_links_witness:
  "fst (search_google example_provider ''irigasi'' example_journal [])
     = Inr [\<lparr>judul = ''Satu'', article_link = ''a.org/1.pdf'',
             snippet = ''sistem irigasi otomatis'', jurnal = ''Jurnal A'',
             peringkat_sinta = [], website_jurnal = ''a.org''\<rparr>,
            \<lparr>judul = ''Dua'', article_link = ''a.org/2.PDF'', snippet = [],
             jurnal = ''Jurnal A'', peringkat_sinta = [], website_jurnal = ''a.org''\<rparr>]
   \<and> is_pdf ''a.org/1.pdf'' \<and> is_pdf ''a.org/2.PDF'' \<and> \<not> is_pdf ''a.org/3.html''
   \<and> map article_link
        (all_results (generate example_process_text example_provider (\<lambda>xs. xs)
                        (Some example_catalog)
                        \<lparr>topic = ''irigasi'', selected_rank = None, sources_json = NoSources\<rparr>))
     = [''a.org/1.pdf'', ''a.org/2.PDF'']
   \<and> list_all (\<lambda>a. is_pdf (article_link a))
        (all_results (generate example_process_text example_provider (\<lambda>xs. xs)
                        (Some example_catalog)
                        \<lparr>topic = ''irigasi'', selected_rank = None, sources_json = NoSources\<rparr>))"
proof -
  have a: "fst (search_google example_provider ''irigasi'' example_journal [])
     = Inr [\<lparr>judul = ''Satu'', article_link = ''a.org/1.pdf'',
             snippet = ''sistem irigasi otomatis'', jurnal = ''Jurnal A'',
             peringkat_sinta = [], website_jurnal = ''a.org''\<rparr>,
            \<lparr>judul = ''Dua'', article_link = ''a.org/2.PDF'', snippet = [],
             jurnal = ''Jurnal A'', peringkat_sinta = [], website_jurnal = ''a.org''\<rparr>]"
    by code_simp
  have b: "is_pdf ''a.org/1.pdf''" "is_pdf ''a.org/2.PDF''" "\<not> is_pdf ''a.org/3.html''"
    by code_simp+
  have c: "map article_link
        (all_results (generate example_process_text example_provider (\<lambda>xs. xs)
                        (Some example_catalog)
                        \<lparr>topic = ''irigasi'', selected_rank = None, sources_json = NoSources\<rparr>))
     = [''a.org/1.pdf'', ''a.org/2.PDF'']"
    by code_simp
  have d: "set ((\<lambda>xs. xs) xs) \<subseteq> set xs" for xs :: "scored_article list"
    by simp
  show ?thesis
    using a b c only_pdf_links[of "\<lambda>xs. xs", OF d, of example_provider "''irigasi''"
        example_journal "[]" _ "''a.org''" "''Jurnal A''" _ example_process_text
        "Some example_catalog"
        "\<lparr>topic = ''irigasi'', selected_rank = None, sources_json = NoSources\<rparr>"]
    by simp
qed

end
